theory Spec2Isabelle
  imports Main "HOL-Library.Word"
begin

unbundle bit_operations_syntax

section \<open>Machine model\<close>

text \<open>
  Both source files (\<^verbatim>\<open>main.cc\<close> and \<^verbatim>\<open>main.cpp\<close>) are Win32 programs. The model is
  the 64-bit build: \<^verbatim>\<open>size_t\<close> and pointers are 64-bit words (\<^verbatim>\<open>+\<close> wraps around), and
  \<^verbatim>\<open>sizeof(void *)\<close> is 8. The null pointer is the word 0.
\<close>

type_synonym size_t = "64 word"
type_synonym pointer = "64 word"

section \<open>Data model\<close>

text \<open>
  \<^verbatim>\<open>struct PathBuilder { char buffer[MAX_PATH]; size_t used; };\<close> (\<^verbatim>\<open>StringBuilder\<close> in
  \<^verbatim>\<open>main.cc\<close>). The index \<open>used\<close> is a natural number: it only grows by the length of a
  string that is in memory, so it cannot reach \<open>2 ^ 64\<close>.
\<close>

record PathBuilder =
  buffer :: string
  used :: nat

text \<open>
  \<^verbatim>\<open>struct LinearArena { uint8_t *base; size_t used; size_t committed; size_t reserved; };\<close>
  From here on \<open>used\<close> is the arena's field; the path builder's is \<open>PathBuilder.used\<close>.
\<close>

record LinearArena =
  base :: pointer
  used :: size_t
  committed :: size_t
  reserved :: size_t

datatype alloc_error = OutOfReservedSpace | CommitFailed

type_synonym alloc_result = "alloc_error + pointer"

text \<open>One call of the allocator, as it is observed from outside.\<close>

record call_record =
  before :: LinearArena
  request :: size_t
  outcome :: alloc_result
  after :: LinearArena

text \<open>
  What the host's directory enumeration yields for one entry: \<^verbatim>\<open>cFileName\<close>, whether
  \<^verbatim>\<open>dwFileAttributes\<close> has \<^verbatim>\<open>FILE_ATTRIBUTE_DIRECTORY\<close>, and the entries the host yields,
  in its order, when that entry's own path is enumerated in turn. The pseudo-entries
  \<^verbatim>\<open>.\<close> and \<^verbatim>\<open>..\<close> are entries like the others.
\<close>

datatype entry = Entry string bool "entry list"

text \<open>
  Memory, byte by byte, indexed by the address. The nodes of the list live in it, laid
  out as the compiler lays out
  \<^verbatim>\<open>struct FileName { size_t length; FileName *next; char name[1]; };\<close> the field
  \<^verbatim>\<open>length\<close> in the bytes 0 to 7 of the node, \<^verbatim>\<open>next\<close> in the bytes 8 to 15, and
  \<^verbatim>\<open>name\<close> from byte 16 on.
\<close>

type_synonym memory = "nat \<Rightarrow> char"

datatype push_error = PathTooLong | BufferOverrun

datatype walk_error =
    PushFailed push_error
  | NoFindData
  | NullPointerWrite
  | AccessViolation

section \<open>Constants and macros\<close>

definition NULL :: pointer where
  "NULL = 0"

definition sizeof_pointer :: size_t where
  "sizeof_pointer = 8"

text \<open>
  \<^verbatim>\<open>sizeof(FileName)\<close>: two 8-byte fields and one \<^verbatim>\<open>char\<close>, padded to the alignment 8.
\<close>

definition sizeof_FileName :: size_t where
  "sizeof_FileName = 24"

text \<open>
  Modelled from the spec: \<^verbatim>\<open>MAX_PATH\<close> is declared in \<^verbatim>\<open>windows.h\<close>, which is not among
  the sources. The specification gives the capacity of the path buffer as 260, and
  \<^verbatim>\<open>main.cc\<close> defines its own \<^verbatim>\<open>MAX_STRING_LENGTH\<close> as 260.
\<close>

definition MAX_PATH :: nat where
  "MAX_PATH = 260"

definition NUL :: char where
  "NUL = CHR 0x00"

definition backslash :: char where
  "backslash = CHR 0x5C"

text \<open>
  \<^verbatim>\<open>#define CLAMP_TOP(val, max) ((val) > (max) ? (max) : (val))\<close>

  \<^verbatim>\<open>#define MAX(a, b) ((a) > (b) ? (a) : (b))\<close>

  \<^verbatim>\<open>#define NEXT_MULTIPLE(num, base) (((num) + ((base) - 1)) & ~((base) - 1))\<close>

  All three are used at type \<^verbatim>\<open>size_t\<close> only. (\<open>MAX\<close> is reserved syntax in HOL, hence
  the suffix.)
\<close>

definition CLAMP_TOP :: "size_t \<Rightarrow> size_t \<Rightarrow> size_t" where
  "CLAMP_TOP val mx = (if val > mx then mx else val)"

definition MAX_of :: "size_t \<Rightarrow> size_t \<Rightarrow> size_t" where
  "MAX_of a b = (if a > b then a else b)"

definition NEXT_MULTIPLE :: "size_t \<Rightarrow> size_t \<Rightarrow> size_t" where
  "NEXT_MULTIPLE num bs = (num + (bs - 1)) AND NOT (bs - 1)"

section \<open>The path builder\<close>

text \<open>
  A value of type \<open>string\<close> passed as a \<^verbatim>\<open>const char *\<close> stands for the characters before
  the terminator, so \<^verbatim>\<open>strlen\<close> is \<open>length\<close>. Reading a buffer back as a C string stops at
  the first terminator.
\<close>

definition c_string :: "string \<Rightarrow> string" where
  "c_string bytes = takeWhile (\<lambda>c. c \<noteq> NUL) bytes"

definition reset_path :: "PathBuilder \<Rightarrow> PathBuilder" where
  "reset_path pb = pb\<lparr>PathBuilder.used := 0\<rparr>"

text \<open>\<^verbatim>\<open>memcpy(buf + off, src, length src)\<close>, for a copy that stays inside \<open>buf\<close>.\<close>

definition memcpy :: "string \<Rightarrow> nat \<Rightarrow> string \<Rightarrow> string" where
  "memcpy buf off src = take off buf @ src @ drop (off + length src) buf"

text \<open>
  \<^verbatim>\<open>push_path\<close> (\<^verbatim>\<open>string_builder_push\<close> in \<^verbatim>\<open>main.cc\<close>, the same statements). The
  source tests \<^verbatim>\<open>length + 1 >= MAX_PATH\<close> and exits; the result \<open>PathTooLong\<close> is that
  exit. The copy and the terminator are then written at \<^verbatim>\<open>pb->used\<close> whatever its value.
  A write outside \<^verbatim>\<open>char buffer[MAX_PATH]\<close> is undefined behaviour in C; the model makes
  it the result \<open>BufferOverrun\<close>. The last byte written is the terminator, at index
  \<open>used + length\<close>.
\<close>

definition push_path :: "PathBuilder \<Rightarrow> string \<Rightarrow> push_error + PathBuilder" where
  "push_path pb str =
     (let len = length str in
      if len + 1 \<ge> MAX_PATH then Inl PathTooLong
      else if PathBuilder.used pb + len \<ge> length (buffer pb) then Inl BufferOverrun
      else Inr \<lparr>buffer = (memcpy (buffer pb) (PathBuilder.used pb) str)
                            [PathBuilder.used pb + len := NUL],
                PathBuilder.used = PathBuilder.used pb + len\<rparr>)"

definition string_builder_push :: "PathBuilder \<Rightarrow> string \<Rightarrow> push_error + PathBuilder" where
  "string_builder_push = push_path"

text \<open>Consecutive calls of \<^verbatim>\<open>push_path\<close>; the first failure ends the run.\<close>

fun push_all :: "PathBuilder \<Rightarrow> string list \<Rightarrow> push_error + PathBuilder" where
  "push_all pb [] = Inr pb"
| "push_all pb (s # ss) =
     (case push_path pb s of Inl e \<Rightarrow> Inl e | Inr pb' \<Rightarrow> push_all pb' ss)"

text \<open>\<^verbatim>\<open>PathBuilder pattern = {};\<close>\<close>

definition empty_builder :: PathBuilder where
  "empty_builder = \<lparr>buffer = replicate MAX_PATH NUL, PathBuilder.used = 0\<rparr>"

section \<open>The linear arena\<close>

text \<open>
  The host's virtual memory is outside the program. \<^verbatim>\<open>make\<close> / \<^verbatim>\<open>linear_arena_create\<close>
  store whatever \<^verbatim>\<open>VirtualAlloc(NULL, reserve_size, MEM_RESERVE, PAGE_READWRITE)\<close> returned
  (the source does not test it); the model takes that address as a parameter.
\<close>

definition make :: "pointer \<Rightarrow> size_t \<Rightarrow> LinearArena" where
  "make reserved_at reserve_size =
     \<lparr>base = reserved_at, used = 0, committed = 0, reserved = reserve_size\<rparr>"

definition linear_arena_create :: "pointer \<Rightarrow> size_t \<Rightarrow> LinearArena" where
  "linear_arena_create reserved_at reserve_size =
     \<lparr>base = reserved_at, used = 0, committed = 0, reserved = reserve_size\<rparr>"

text \<open>
  A value of type \<open>vm_commit\<close> is the host's answer to
  \<^verbatim>\<open>VirtualAlloc(arena->base, commit_size, MEM_COMMIT, PAGE_READWRITE)\<close>: \<open>True\<close> when the
  call returns a non-null address.
\<close>

type_synonym vm_commit = "pointer \<Rightarrow> size_t \<Rightarrow> bool"

text \<open>
  Both failures of the allocator are \<^verbatim>\<open>return NULL\<close> in the source; the model keeps apart
  which of the two returns was taken. \<open>returned_pointer\<close> is what the caller receives.
\<close>

fun returned_pointer :: "alloc_result \<Rightarrow> pointer" where
  "returned_pointer (Inl e) = NULL"
| "returned_pointer (Inr p) = p"

fun succeeded :: "alloc_result \<Rightarrow> bool" where
  "succeeded (Inl e) = False"
| "succeeded (Inr p) = True"

text \<open>
  The body of \<^verbatim>\<open>if (arena->used + aligned_size > arena->committed) { ... }\<close>: the arena
  after the block, or \<open>None\<close> when the block returns \<^verbatim>\<open>NULL\<close>.
\<close>

definition commit_size_for :: "LinearArena \<Rightarrow> size_t \<Rightarrow> size_t" where
  "commit_size_for arena aligned_size =
     (let page_aligned_size = NEXT_MULTIPLE aligned_size 4096
      in CLAMP_TOP (committed arena + MAX_of page_aligned_size (100 * 4096)) (reserved arena))"

definition grow_committed :: "vm_commit \<Rightarrow> LinearArena \<Rightarrow> size_t \<Rightarrow> LinearArena option" where
  "grow_committed vm arena aligned_size =
     (let commit_size = commit_size_for arena aligned_size
      in if \<not> vm (base arena) commit_size then None
         else Some (arena\<lparr>committed := commit_size\<rparr>))"

text \<open>
  The allocator, with the alignment granularity \<open>al\<close> as a parameter: the two source files
  differ in nothing else. The result is the returned pointer (or which failure) together
  with the arena as the call leaves it.
\<close>

definition arena_push :: "size_t \<Rightarrow> vm_commit \<Rightarrow> LinearArena \<Rightarrow> size_t \<Rightarrow> alloc_result \<times> LinearArena" where
  "arena_push al vm arena sz =
     (if used arena \<ge> reserved arena then (Inl OutOfReservedSpace, arena)
      else
        let aligned_size = NEXT_MULTIPLE sz al in
        case (if used arena + aligned_size > committed arena
              then grow_committed vm arena aligned_size else Some arena) of
          None \<Rightarrow> (Inl CommitFailed, arena)
        | Some arena' \<Rightarrow>
            (Inr (base arena' + used arena'), arena'\<lparr>used := used arena' + aligned_size\<rparr>))"

text \<open>\<^verbatim>\<open>main.cc\<close>: \<^verbatim>\<open>NEXT_MULTIPLE(size, sizeof(void *))\<close>.\<close>

definition linear_arena_push_size :: "vm_commit \<Rightarrow> LinearArena \<Rightarrow> size_t \<Rightarrow> alloc_result \<times> LinearArena" where
  "linear_arena_push_size = arena_push sizeof_pointer"

text \<open>\<^verbatim>\<open>main.cpp\<close>: \<^verbatim>\<open>NEXT_MULTIPLE(size, 2 * sizeof(void *))\<close>.\<close>

definition alloc :: "vm_commit \<Rightarrow> LinearArena \<Rightarrow> size_t \<Rightarrow> alloc_result \<times> LinearArena" where
  "alloc = arena_push (2 * sizeof_pointer)"

text \<open>A host that grants every commit, and one that refuses every commit.\<close>

definition vm_grant :: vm_commit where
  "vm_grant p n = True"

definition vm_refuse :: vm_commit where
  "vm_refuse p n = False"

text \<open>
  A sequence of calls on one arena, each with the host's answer of that moment. The run
  records every call.
\<close>

fun arena_run :: "size_t \<Rightarrow> LinearArena \<Rightarrow> (vm_commit \<times> size_t) list \<Rightarrow> call_record list" where
  "arena_run al a [] = []"
| "arena_run al a ((vm, sz) # calls) =
     (let r = arena_push al vm a sz
      in \<lparr>before = a, request = sz, outcome = fst r, after = snd r\<rparr>
           # arena_run al (snd r) calls)"

subsection \<open>The properties of the specification, in its words\<close>

text \<open>A number rounded up to the next multiple of \<open>m\<close>, in unbounded arithmetic.\<close>

definition round_up :: "nat \<Rightarrow> nat \<Rightarrow> nat" where
  "round_up n m = ((n + (m - 1)) div m) * m"


text \<open>The commit invariant \<open>used \<le> committed \<le> reserved\<close>.\<close>

definition commit_invariant :: "LinearArena \<Rightarrow> bool" where
  "commit_invariant a = (used a \<le> committed a \<and> committed a \<le> reserved a)"

text \<open>The bytes a call consumed.\<close>

definition consumed :: "LinearArena \<Rightarrow> LinearArena \<Rightarrow> size_t" where
  "consumed a a' = used a' - used a"

definition run_successful :: "call_record list \<Rightarrow> bool" where
  "run_successful tr = list_all (\<lambda>c. succeeded (outcome c)) tr"

text \<open>
  The block of a call, as offsets from \<open>base\<close> in unbounded arithmetic: it starts at
  \<open>used\<close> as the call found it and has the aligned size.
\<close>

definition block_start :: "call_record \<Rightarrow> nat" where
  "block_start c = unat (used (before c))"

definition block_end :: "size_t \<Rightarrow> call_record \<Rightarrow> nat" where
  "block_end al c = unat (used (before c)) + unat (NEXT_MULTIPLE (request c) al)"

text \<open>Every block of the run ends inside the reservation.\<close>

definition run_fits :: "size_t \<Rightarrow> call_record list \<Rightarrow> bool" where
  "run_fits al tr = list_all (\<lambda>c. block_end al c \<le> unat (reserved (before c))) tr"

definition used_nondecreasing :: "call_record list \<Rightarrow> bool" where
  "used_nondecreasing tr = list_all (\<lambda>c. unat (used (before c)) \<le> unat (used (after c))) tr"

definition addresses_bump :: "call_record list \<Rightarrow> bool" where
  "addresses_bump tr = list_all (\<lambda>c. outcome c = Inr (base (before c) + used (before c))) tr"

definition blocks_disjoint :: "size_t \<Rightarrow> call_record list \<Rightarrow> bool" where
  "blocks_disjoint al tr = sorted_wrt (\<lambda>c d. block_end al c \<le> block_start d) tr"

text \<open>
  For every successful call of a run whose request is no larger than the reservation: the
  bytes consumed are the request rounded up to a multiple of \<open>m\<close>.
\<close>

definition sizes_rounded :: "nat \<Rightarrow> call_record list \<Rightarrow> bool" where
  "sizes_rounded m tr =
     list_all (\<lambda>c. succeeded (outcome c) \<and> unat (request c) \<le> unat (reserved (before c))
                 \<longrightarrow> unat (consumed (before c) (after c)) = round_up (unat (request c)) m) tr"

text \<open>Every returned address lies a multiple of \<open>m\<close> above \<open>base\<close>.\<close>

definition offsets_aligned :: "nat \<Rightarrow> call_record list \<Rightarrow> bool" where
  "offsets_aligned m tr =
     list_all (\<lambda>c. succeeded (outcome c)
                 \<longrightarrow> m dvd unat (returned_pointer (outcome c) - base (before c))) tr"

text \<open>Every returned address is a multiple of \<open>m\<close>.\<close>

definition addresses_aligned :: "nat \<Rightarrow> call_record list \<Rightarrow> bool" where
  "addresses_aligned m tr =
     list_all (\<lambda>c. succeeded (outcome c) \<longrightarrow> m dvd unat (returned_pointer (outcome c))) tr"

section \<open>The directory walk with the arena\<close>

subsection \<open>Memory\<close>

text \<open>
  The host backs the committed prefix of the reservation and nothing beyond it (every
  commit size of the allocator is a multiple of the page size when \<open>reserved\<close> is, as the
  1 GiB of \<^verbatim>\<open>main\<close> is): an access to the \<open>n\<close> bytes at \<open>p\<close> is served when they lie inside
  that prefix, and is an access violation otherwise. No other memory is the walk's to
  touch, so an access outside the reservation counts as a violation as well.
\<close>

definition address :: "pointer \<Rightarrow> nat" where
  "address p = unat p"

definition accessible :: "LinearArena \<Rightarrow> pointer \<Rightarrow> nat \<Rightarrow> bool" where
  "accessible a p n =
     (address (base a) \<le> address p \<and> address p + n \<le> address (base a) + unat (committed a))"

definition store_bytes :: "memory \<Rightarrow> nat \<Rightarrow> char list \<Rightarrow> memory" where
  "store_bytes m off bytes =
     (\<lambda>i. if off \<le> i \<and> i < off + length bytes then bytes ! (i - off) else m i)"

definition load_bytes :: "memory \<Rightarrow> nat \<Rightarrow> nat \<Rightarrow> char list" where
  "load_bytes m off n = map m [off ..< off + n]"

text \<open>A \<^verbatim>\<open>size_t\<close> or a pointer in memory: eight bytes, the lowest first.\<close>

fun le_bytes :: "nat \<Rightarrow> nat \<Rightarrow> char list" where
  "le_bytes 0 n = []"
| "le_bytes (Suc k) n = char_of (n mod 256) # le_bytes k (n div 256)"

fun le_value :: "char list \<Rightarrow> nat" where
  "le_value [] = 0"
| "le_value (c # cs) = of_char c + 256 * le_value cs"

definition size_t_bytes :: "size_t \<Rightarrow> char list" where
  "size_t_bytes w = le_bytes 8 (unat w)"

definition size_t_of_bytes :: "char list \<Rightarrow> size_t" where
  "size_t_of_bytes bytes = of_nat (le_value bytes)"

text \<open>The offsets of the fields of \<^verbatim>\<open>FileName\<close>.\<close>

definition offsetof_next :: nat where
  "offsetof_next = 8"

definition offsetof_name :: nat where
  "offsetof_name = 16"

subsection \<open>The loop body\<close>

text \<open>
  The three stores through \<^verbatim>\<open>file\<close>: \<^verbatim>\<open>file->length = pattern.used\<close>,
  \<^verbatim>\<open>file->next = NULL\<close> and \<^verbatim>\<open>memcpy(file->name, pattern.buffer, pattern.used + 1)\<close>.
  They overwrite whatever the bytes held.
\<close>

definition store_node :: "memory \<Rightarrow> nat \<Rightarrow> size_t \<Rightarrow> pointer \<Rightarrow> char list \<Rightarrow> memory" where
  "store_node m off len nxt name_bytes =
     store_bytes
       (store_bytes (store_bytes m off (size_t_bytes len)) (off + offsetof_next) (size_t_bytes nxt))
       (off + offsetof_name) name_bytes"

text \<open>
  The source makes the stores whatever \<^verbatim>\<open>file\<close> is. Through the null pointer they are
  the result \<open>NullPointerWrite\<close>; where the bytes of the node do not all lie in committed
  memory they are the result \<open>AccessViolation\<close>.
\<close>

definition write_node ::
    "LinearArena \<Rightarrow> memory \<Rightarrow> pointer \<Rightarrow> size_t \<Rightarrow> pointer \<Rightarrow> char list \<Rightarrow> walk_error + memory" where
  "write_node a m file len nxt name_bytes =
     (if file = NULL then Inl NullPointerWrite
      else if \<not> accessible a file (offsetof_name + length name_bytes) then Inl AccessViolation
      else Inr (store_node m (address file) len nxt name_bytes))"

text \<open>Reading \<^verbatim>\<open>p->next\<close>.\<close>

definition next_of :: "memory \<Rightarrow> pointer \<Rightarrow> pointer" where
  "next_of m p = size_t_of_bytes (load_bytes m (address p + offsetof_next) 8)"

definition read_next :: "LinearArena \<Rightarrow> memory \<Rightarrow> pointer \<Rightarrow> walk_error + pointer" where
  "read_next a m p =
     (if \<not> accessible a p (offsetof_next + 8) then Inl AccessViolation else Inr (next_of m p))"

text \<open>
  \<^verbatim>\<open>for (; strings->next; strings = strings->next) continue;\<close> The loop need not end (a
  cyclic list), so not returning is the value \<open>None\<close>.
\<close>

partial_function (option) find_tail ::
    "LinearArena \<Rightarrow> memory \<Rightarrow> pointer \<Rightarrow> (walk_error + pointer) option" where
  "find_tail a m strings =
     (case read_next a m strings of
        Inl e \<Rightarrow> Some (Inl e)
      | Inr nxt \<Rightarrow> if nxt \<noteq> NULL then find_tail a m nxt else Some (Inr strings))"

declare find_tail.simps [code]

text \<open>
  \<^verbatim>\<open>strings->next = file;\<close> The loop has just read \<^verbatim>\<open>strings->next\<close>, so these bytes are
  in committed memory.
\<close>

definition set_next :: "memory \<Rightarrow> pointer \<Rightarrow> pointer \<Rightarrow> memory" where
  "set_next m strings file = store_bytes m (address strings + offsetof_next) (size_t_bytes file)"

text \<open>
  The first half of the loop body, from \<^verbatim>\<open>pattern.used = 0\<close> to
  \<^verbatim>\<open>strings->next = file\<close>: build the path, allocate the node, fill it, walk to the tail
  and link. It yields the builder, the arena and the memory as it leaves them, and
  \<open>strings\<close>, which the tail walk has moved to the node the new one is linked to. The
  pointer that the allocator returns is used as it comes.
\<close>

definition append_node ::
    "size_t \<Rightarrow> vm_commit \<Rightarrow> string \<Rightarrow> string \<Rightarrow> PathBuilder \<Rightarrow> LinearArena \<times> memory \<Rightarrow> pointer
      \<Rightarrow> (walk_error + PathBuilder \<times> (LinearArena \<times> memory) \<times> pointer) option" where
  "append_node al vm root cFileName pattern st strings =
     (case push_all (pattern\<lparr>PathBuilder.used := 0\<rparr>) [root, [backslash], cFileName] of
        Inl e \<Rightarrow> Some (Inl (PushFailed e))
      | Inr pattern' \<Rightarrow>
          let r = arena_push al vm (fst st) (sizeof_FileName + of_nat (PathBuilder.used pattern'));
              file = returned_pointer (fst r)
          in
          (case write_node (snd r) (snd st) file (of_nat (PathBuilder.used pattern')) NULL
                  (take (PathBuilder.used pattern' + 1) (buffer pattern')) of
             Inl e \<Rightarrow> Some (Inl e)
           | Inr m1 \<Rightarrow>
               (case find_tail (snd r) m1 strings of
                  None \<Rightarrow> None
                | Some (Inl e) \<Rightarrow> Some (Inl e)
                | Some (Inr tail) \<Rightarrow>
                    Some (Inr (pattern', (snd r, set_next m1 tail file), tail)))))"

text \<open>
  \<^verbatim>\<open>get_file_list_custom\<close>, with the allocator's granularity \<open>al\<close> and the host's answers
  as parameters. \<open>directory_loop\<close> is the \<^verbatim>\<open>do { ... } while (FindNextFileA(...))\<close>: its
  list argument holds the entries not yet processed, the first of them being the one in
  \<^verbatim>\<open>find_data\<close>. When \<^verbatim>\<open>FindFirstFileExA\<close> yields nothing, \<^verbatim>\<open>find_data\<close> is not
  initialised and the body reads it all the same: the result \<open>NoFindData\<close>. The state is
  the arena and the memory.
\<close>

fun get_file_list_custom ::
    "size_t \<Rightarrow> vm_commit \<Rightarrow> string \<Rightarrow> entry list \<Rightarrow> LinearArena \<times> memory \<Rightarrow> pointer
      \<Rightarrow> (walk_error + LinearArena \<times> memory) option"
  and directory_loop ::
    "size_t \<Rightarrow> vm_commit \<Rightarrow> string \<Rightarrow> entry list \<Rightarrow> PathBuilder \<Rightarrow> LinearArena \<times> memory \<Rightarrow> pointer
      \<Rightarrow> (walk_error + LinearArena \<times> memory) option"
where
  "get_file_list_custom al vm root es st strings =
     (case push_all empty_builder [root, [backslash, CHR ''*'']] of
        Inl e \<Rightarrow> Some (Inl (PushFailed e))
      | Inr pattern \<Rightarrow>
          (case es of
             [] \<Rightarrow> Some (Inl NoFindData)
           | _ \<Rightarrow> directory_loop al vm root es pattern st strings))"
| "directory_loop al vm root [] pattern st strings = Some (Inr st)"
| "directory_loop al vm root (Entry cFileName is_directory sub # es) pattern st strings =
     (if cFileName = ''.'' \<or> cFileName = ''..''
      then directory_loop al vm root es pattern st strings
      else
        case append_node al vm root cFileName pattern st strings of
          None \<Rightarrow> None
        | Some (Inl e) \<Rightarrow> Some (Inl e)
        | Some (Inr (pattern', st', tail)) \<Rightarrow>
            if is_directory
            then
              (case get_file_list_custom al vm (c_string (buffer pattern')) sub st' tail of
                 None \<Rightarrow> None
               | Some (Inl e) \<Rightarrow> Some (Inl e)
               | Some (Inr st'') \<Rightarrow> directory_loop al vm root es pattern' st'' tail)
            else directory_loop al vm root es pattern' st' tail)"

subsection \<open>The list in link order, and the order the specification names\<close>

text \<open>\<open>chain m p ps\<close>: following \<^verbatim>\<open>next\<close> from \<open>p\<close> visits the nodes \<open>ps\<close> and then null.\<close>

fun chain :: "memory \<Rightarrow> pointer \<Rightarrow> pointer list \<Rightarrow> bool" where
  "chain m p [] = (p = NULL)"
| "chain m p (q # qs) = (p = q \<and> p \<noteq> NULL \<and> chain m (next_of m p) qs)"











subsection \<open>The example of the specification\<close>

text \<open>
  The state in which \<^verbatim>\<open>main\<close> calls the walk: an arena of 1 GiB from which the first
  node, here for the path \<open>root\<close>, has been allocated (32 bytes, the first commit made) and
  filled; and a host that yields, for the root, the file \<open>a\<close> and the directory \<open>b\<close>, and
  for \<open>b\<close> the file \<open>c\<close>, each time after the two pseudo-entries.
\<close>

definition example_arena :: LinearArena where
  "example_arena = \<lparr>base = 65536, used = 32, committed = 409600, reserved = 1073741824\<rparr>"

definition example_memory :: memory where
  "example_memory = store_node (\<lambda>i. NUL) 65536 4 NULL (''root'' @ [NUL])"


section \<open>Word arithmetic of the macros\<close>

text \<open>
  Clearing the low \<open>k\<close> bits of a word rounds its value down to a multiple of \<open>2 ^ k\<close>;
  so \<^verbatim>\<open>NEXT_MULTIPLE\<close> rounds up, as long as adding \<open>2 ^ k - 1\<close> does not wrap.
\<close>

lemma and_not_mask_push_drop:
  "(w :: 'a::len word) AND NOT (mask k) = push_bit k (drop_bit k w)"
  by (rule bit_eqI) (auto simp add: bit_simps)

lemma unat_and_not_mask:
  "unat ((w :: 'a::len word) AND NOT (mask k)) = (unat w div 2 ^ k) * 2 ^ k"
proof -
  have "unat (push_bit k (drop_bit k w)) = take_bit LENGTH('a) (push_bit k (drop_bit k (unat w)))"
    by (simp add: unsigned_push_bit_eq unat_drop_bit_eq)
  also have "\<dots> = take_bit LENGTH('a) ((unat w div 2 ^ k) * 2 ^ k)"
    by (simp add: push_bit_eq_mult drop_bit_eq_div)
  also have "\<dots> = (unat w div 2 ^ k) * 2 ^ k"
  proof -
    have "(unat w div 2 ^ k) * 2 ^ k \<le> unat w" by simp
    also have "unat w < 2 ^ LENGTH('a)" by simp
    finally show ?thesis by (simp add: take_bit_nat_eq_self_iff)
  qed
  finally show ?thesis by (simp add: and_not_mask_push_drop)
qed

lemma NEXT_MULTIPLE_pow2:
  "NEXT_MULTIPLE n (2 ^ k) = (n + mask k) AND NOT (mask k)"
  by (simp add: NEXT_MULTIPLE_def mask_eq_decr_exp)

lemma unat_mask64:
  assumes "k \<le> 64"
  shows "unat (mask k :: size_t) = 2 ^ k - 1"
proof -
  have "unat (mask k :: size_t) = nat (uint (mask k :: size_t))" by simp
  also have "\<dots> = nat (mask k)" using assms by (simp add: uint_mask_eq min_def)
  also have "\<dots> = 2 ^ k - 1" by (simp add: mask_eq_exp_minus_1 nat_diff_distrib nat_power_eq)
  finally show ?thesis .
qed

lemma unat_NEXT_MULTIPLE:
  assumes "k \<le> 64" "unat n + 2 ^ k \<le> 2 ^ 64"
  shows "unat (NEXT_MULTIPLE n (2 ^ k)) = round_up (unat n) (2 ^ k)"
proof -
  have m: "unat (mask k :: size_t) = 2 ^ k - 1" using assms(1) by (rule unat_mask64)
  have "unat n + unat (mask k :: size_t) < 2 ^ LENGTH(64)"
    using assms(2) m by simp
  then have "unat (n + mask k) = unat n + (2 ^ k - 1)"
    using m by (simp add: unat_add_lem [THEN iffD1])
  then show ?thesis
    by (simp add: NEXT_MULTIPLE_pow2 unat_and_not_mask round_up_def)
qed

lemma dvd_NEXT_MULTIPLE: "2 ^ k dvd unat (NEXT_MULTIPLE n (2 ^ k))"
  by (simp add: NEXT_MULTIPLE_pow2 unat_and_not_mask)

lemma dvd_unat_add:
  assumes "k \<le> 64" "2 ^ k dvd unat (x :: size_t)" "2 ^ k dvd unat (y :: size_t)"
  shows "2 ^ k dvd unat (x + y)"
proof -
  have "(2::nat) ^ k dvd 2 ^ LENGTH(64)" using assms(1) by (intro le_imp_power_dvd) simp
  moreover have "2 ^ k dvd unat x + unat y" using assms by simp
  ultimately have "2 ^ k dvd (unat x + unat y) mod 2 ^ LENGTH(64)"
    by (rule dvd_mod [rotated])
  then show ?thesis
    by (simp only: unat_word_ariths)
qed







section \<open>One call of the allocator\<close>

lemma arena_push_success:
  assumes "succeeded (fst (arena_push al vm a sz))"
  shows "fst (arena_push al vm a sz) = Inr (base a + used a)"
    and "used (snd (arena_push al vm a sz)) = used a + NEXT_MULTIPLE sz al"
    and "base (snd (arena_push al vm a sz)) = base a"
    and "reserved (snd (arena_push al vm a sz)) = reserved a"
    and "used a < reserved a"
  using assms
  by (auto simp add: arena_push_def grow_committed_def Let_def split: if_splits option.splits)

lemma arena_push_base:
  "base (snd (arena_push al vm a sz)) = base a"
  by (auto simp add: arena_push_def grow_committed_def Let_def split: if_splits option.splits)

lemma arena_push_reserved:
  "reserved (snd (arena_push al vm a sz)) = reserved a"
  by (auto simp add: arena_push_def grow_committed_def Let_def split: if_splits option.splits)

text \<open>The definitions that evaluating a call on concrete numbers unfolds.\<close>

lemmas arena_eval =
  make_def linear_arena_create_def alloc_def linear_arena_push_size_def sizeof_pointer_def
  arena_push_def grow_committed_def commit_size_for_def Let_def
  NEXT_MULTIPLE_def CLAMP_TOP_def MAX_of_def vm_grant_def vm_refuse_def

subsection \<open>Exhaustion\<close>

text \<open>
  Claim C3. In every arena state with \<open>used \<ge> reserved\<close>, a call of the allocator with any
  size takes the first \<^verbatim>\<open>return NULL\<close> (the failure the specification calls
  OutOfReservedSpace), the returned pointer is null, and the arena, in particular \<open>used\<close>
  and \<open>committed\<close>, is left as it was. This holds for both variants.
\<close>

theorem exhausted_arena_fails:
  assumes "used a \<ge> reserved a"
  shows "linear_arena_push_size vm a sz = (Inl OutOfReservedSpace, a)
       \<and> alloc vm a sz = (Inl OutOfReservedSpace, a)
       \<and> returned_pointer (fst (alloc vm a sz)) = NULL
       \<and> used (snd (alloc vm a sz)) = used a
       \<and> committed (snd (alloc vm a sz)) = committed a"
  using assms by (simp add: linear_arena_push_size_def alloc_def arena_push_def)

theorem exhausted_arena_fails_witness:
  "used \<lparr>base = 65536, used = 4096, committed = 4096, reserved = 4096\<rparr>
     \<ge> reserved \<lparr>base = 65536, used = 4096, committed = 4096, reserved = 4096\<rparr>
   \<and> alloc vm_grant \<lparr>base = 65536, used = 4096, committed = 4096, reserved = 4096\<rparr> 16
     = (Inl OutOfReservedSpace, \<lparr>base = 65536, used = 4096, committed = 4096, reserved = 4096\<rparr>)"
  using exhausted_arena_fails
    [of "\<lparr>base = 65536, used = 4096, committed = 4096, reserved = 4096\<rparr>" vm_grant 16]
  by simp

subsection \<open>The commit invariant\<close>

text \<open>
  Claim C1 says that \<open>used \<le> committed \<le> reserved\<close> holds in every reachable state, also
  when the commit size was clamped to \<open>reserved\<close>. The allocator tests \<open>used \<ge> reserved\<close>
  before the call but never whether the block ends inside the reservation. On a fresh
  arena of 4096 reserved bytes, a request of 8192 bytes is granted: the commit size is
  clamped to 4096, the call returns \<open>base\<close> and leaves \<open>used = 8192\<close> above
  \<open>committed = reserved = 4096\<close>. Both variants do so.
\<close>

theorem oversized_request_breaks_commit_invariant:
  "commit_invariant (make 65536 4096)
   \<and> alloc vm_grant (make 65536 4096) 8192
       = (Inr 65536, \<lparr>base = 65536, used = 8192, committed = 4096, reserved = 4096\<rparr>)
   \<and> \<not> commit_invariant (snd (alloc vm_grant (make 65536 4096) 8192))
   \<and> linear_arena_push_size vm_grant (linear_arena_create 65536 4096) 8192
       = (Inr 65536, \<lparr>base = 65536, used = 8192, committed = 4096, reserved = 4096\<rparr>)"
  by (simp add: arena_eval commit_invariant_def)


subsection \<open>Monotonicity and disjoint blocks\<close>

text \<open>
  Where every block ends inside the reservation, the allocator is a bump allocator:
  \<open>used\<close> never decreases, every returned address is \<open>base\<close> plus the value of \<open>used\<close>
  before the call, and the block of every call ends at or before the start of the block of
  every later call.
\<close>

lemma arena_run_fits:
  assumes "run_successful (arena_run al a calls)" "run_fits al (arena_run al a calls)"
  shows "list_all (\<lambda>c. unat (used a) \<le> block_start c) (arena_run al a calls)
       \<and> used_nondecreasing (arena_run al a calls)
       \<and> addresses_bump (arena_run al a calls)
       \<and> blocks_disjoint al (arena_run al a calls)"
  using assms
proof (induction calls arbitrary: a)
  case Nil
  show ?case by (simp add: used_nondecreasing_def addresses_bump_def blocks_disjoint_def)
next
  case (Cons call calls)
  obtain vm sz where call: "call = (vm, sz)" by (cases call)
  let ?r = "arena_push al vm a sz"
  let ?a' = "snd ?r"
  from Cons.prems call have ok: "succeeded (fst ?r)"
    and rest_ok: "run_successful (arena_run al ?a' calls)"
    and fit: "unat (used a) + unat (NEXT_MULTIPLE sz al) \<le> unat (reserved a)"
    and rest_fit: "run_fits al (arena_run al ?a' calls)"
    by (simp_all add: run_successful_def run_fits_def block_end_def Let_def)
  note s = arena_push_success [OF ok]
  have "unat (reserved a) < 2 ^ LENGTH(64)" by (rule unsigned_less)
  with fit have "unat (used a) + unat (NEXT_MULTIPLE sz al) < 2 ^ LENGTH(64)"
    by (rule le_less_trans)
  then have u': "unat (used ?a') = unat (used a) + unat (NEXT_MULTIPLE sz al)"
    by (simp add: s(2) unat_add_lem [THEN iffD1])
  from Cons.IH [OF rest_ok rest_fit]
  have ih1: "list_all (\<lambda>c. unat (used ?a') \<le> block_start c) (arena_run al ?a' calls)"
    and ih2: "used_nondecreasing (arena_run al ?a' calls)"
    and ih3: "addresses_bump (arena_run al ?a' calls)"
    and ih4: "blocks_disjoint al (arena_run al ?a' calls)"
    by simp_all
  have later: "list_all (\<lambda>c. unat (used a) + unat (NEXT_MULTIPLE sz al) \<le> block_start c)
      (arena_run al ?a' calls)"
    using ih1 by (simp add: u')
  then have later': "list_all (\<lambda>c. unat (used a) \<le> block_start c) (arena_run al ?a' calls)"
    by (rule list.pred_mono_strong) simp
  show ?case
    using later later' ih2 ih3 ih4 s(1) u'
    by (simp add: call Let_def used_nondecreasing_def addresses_bump_def blocks_disjoint_def
        block_start_def block_end_def list_all_iff)
qed

lemma bump_allocation_when_blocks_fit:
  assumes "run_successful (arena_run al a calls)"
    and "run_fits al (arena_run al a calls)"
  shows "used_nondecreasing (arena_run al a calls)
       \<and> addresses_bump (arena_run al a calls)
       \<and> blocks_disjoint al (arena_run al a calls)"
  using arena_run_fits [OF assms] by simp

lemma bump_allocation_example:
  "run_successful
     (arena_run (2 * sizeof_pointer) (make 65536 1073741824) [(vm_grant, 25), (vm_refuse, 40)])
   \<and> run_fits (2 * sizeof_pointer)
     (arena_run (2 * sizeof_pointer) (make 65536 1073741824) [(vm_grant, 25), (vm_refuse, 40)])
   \<and> map outcome
       (arena_run (2 * sizeof_pointer) (make 65536 1073741824) [(vm_grant, 25), (vm_refuse, 40)])
     = [Inr 65536, Inr 65568]"
  by (simp add: arena_eval run_successful_def run_fits_def block_end_def)

text \<open>
  Claim C4 says that in every sequence of successful calls on one arena \<open>used\<close> never
  decreases and every call returns \<open>base\<close> plus the value of \<open>used\<close> before it, so that the
  blocks of any two allocations are disjoint. The allocator departs from it exactly where
  it grants a block that does not end inside the reservation, the test that claim C1
  finds missing: the sum \<open>used + aligned_size\<close> is then a 64-bit sum that may wrap. On a
  fresh arena of 1 GiB, the requests 16, \<open>2 ^ 64 - 16\<close> and 16 all succeed; the second,
  which no arena can hold, wraps \<open>used\<close> from 16 back to 0, and the third returns the address
  of the first, whose block is handed out twice.
\<close>

theorem wrapped_request_moves_used_back:
  "run_successful
     (arena_run (2 * sizeof_pointer) (make 65536 1073741824)
        [(vm_grant, 16), (vm_grant, 18446744073709551600), (vm_grant, 16)])
   \<and> map outcome
       (arena_run (2 * sizeof_pointer) (make 65536 1073741824)
          [(vm_grant, 16), (vm_grant, 18446744073709551600), (vm_grant, 16)])
     = [Inr 65536, Inr 65552, Inr 65536]
   \<and> \<not> used_nondecreasing
       (arena_run (2 * sizeof_pointer) (make 65536 1073741824)
          [(vm_grant, 16), (vm_grant, 18446744073709551600), (vm_grant, 16)])
   \<and> \<not> blocks_disjoint (2 * sizeof_pointer)
       (arena_run (2 * sizeof_pointer) (make 65536 1073741824)
          [(vm_grant, 16), (vm_grant, 18446744073709551600), (vm_grant, 16)])"
  by (simp add: arena_eval run_successful_def used_nondecreasing_def blocks_disjoint_def
      block_start_def block_end_def)

subsection \<open>Growing the committed prefix\<close>




subsection \<open>Rounding and alignment\<close>

lemma arena_push_alignment:
  assumes k: "k \<le> 64" and al: "2 ^ k dvd unat (used a)"
  shows "2 ^ k dvd unat (used (snd (arena_push (2 ^ k) vm a sz)))"
    and "succeeded (fst (arena_push (2 ^ k) vm a sz))
         \<Longrightarrow> returned_pointer (fst (arena_push (2 ^ k) vm a sz)) - base a = used a"
    and "succeeded (fst (arena_push (2 ^ k) vm a sz))
         \<Longrightarrow> consumed a (snd (arena_push (2 ^ k) vm a sz)) = NEXT_MULTIPLE sz (2 ^ k)"
proof -
  show "2 ^ k dvd unat (used (snd (arena_push (2 ^ k) vm a sz)))"
  proof (cases "succeeded (fst (arena_push (2 ^ k) vm a sz))")
    case True
    from arena_push_success(2) [OF True] show ?thesis
      using dvd_unat_add [OF k al dvd_NEXT_MULTIPLE [of k sz]] by simp
  next
    case False
    then have "snd (arena_push (2 ^ k) vm a sz) = a"
      by (auto simp add: arena_push_def grow_committed_def Let_def split: if_splits option.splits)
    with al show ?thesis by simp
  qed
next
  assume ok: "succeeded (fst (arena_push (2 ^ k) vm a sz))"
  from arena_push_success(1) [OF ok]
  show "returned_pointer (fst (arena_push (2 ^ k) vm a sz)) - base a = used a"
    by simp
  from arena_push_success(2) [OF ok]
  show "consumed a (snd (arena_push (2 ^ k) vm a sz)) = NEXT_MULTIPLE sz (2 ^ k)"
    by (simp add: consumed_def)
qed

lemma arena_run_alignment:
  assumes k: "k \<le> 64" and al: "2 ^ k dvd unat (used a)"
    and r: "unat (reserved a) + 2 ^ k \<le> 2 ^ 64"
  shows "sizes_rounded (2 ^ k) (arena_run (2 ^ k) a calls)
       \<and> offsets_aligned (2 ^ k) (arena_run (2 ^ k) a calls)
       \<and> (j \<le> k \<and> 2 ^ j dvd unat (base a) \<longrightarrow> addresses_aligned (2 ^ j) (arena_run (2 ^ k) a calls))"
  using al r
proof (induction calls arbitrary: a)
  case Nil
  show ?case by (simp add: sizes_rounded_def offsets_aligned_def addresses_aligned_def)
next
  case (Cons call calls)
  obtain vm sz where call: "call = (vm, sz)" by (cases call)
  let ?r = "arena_push (2 ^ k) vm a sz"
  note p = arena_push_alignment [OF k Cons.prems(1), of vm sz]
  from Cons.prems(2) have "unat (reserved (snd ?r)) + 2 ^ k \<le> 2 ^ 64"
    by (simp add: arena_push_reserved)
  note ih = Cons.IH [OF p(1) this]
  have size: "succeeded (fst ?r) \<and> unat sz \<le> unat (reserved a)
      \<longrightarrow> unat (consumed a (snd ?r)) = round_up (unat sz) (2 ^ k)"
  proof (intro impI, elim conjE)
    assume ok: "succeeded (fst ?r)" and fit: "unat sz \<le> unat (reserved a)"
    from fit Cons.prems(2) have "unat sz + 2 ^ k \<le> 2 ^ 64" by simp
    with p(3) [OF ok] unat_NEXT_MULTIPLE [OF k, of sz]
    show "unat (consumed a (snd ?r)) = round_up (unat sz) (2 ^ k)" by simp
  qed
  have off: "succeeded (fst ?r) \<longrightarrow> 2 ^ k dvd unat (returned_pointer (fst ?r) - base a)"
    using p(2) Cons.prems(1) by simp
  have addr: "j \<le> k \<and> 2 ^ j dvd unat (base a) \<and> succeeded (fst ?r)
      \<longrightarrow> 2 ^ j dvd unat (returned_pointer (fst ?r))"
  proof (intro impI, elim conjE)
    assume jk: "j \<le> k" and b: "2 ^ j dvd unat (base a)" and ok: "succeeded (fst ?r)"
    have "(2::nat) ^ j dvd 2 ^ k" using jk by (rule le_imp_power_dvd)
    then have "2 ^ j dvd unat (used a)" using Cons.prems(1) by (rule dvd_trans)
    with b have "2 ^ j dvd unat (base a + used a)"
      using jk k by (intro dvd_unat_add) simp_all
    with arena_push_success(1) [OF ok] show "2 ^ j dvd unat (returned_pointer (fst ?r))"
      by simp
  qed
  show ?case
    using ih size off addr
    by (simp add: call Let_def sizes_rounded_def offsets_aligned_def addresses_aligned_def
        arena_push_base)
qed

text \<open>
  In every sequence of calls on a fresh arena whose reservation ends 16 bytes at least
  below \<open>2 ^ 64\<close>, every successful call with a request no larger than the reservation
  consumes the size rounded up to the next multiple of the granularity (8, the pointer
  size, in \<^verbatim>\<open>main.cc\<close>; 16 in \<^verbatim>\<open>main.cpp\<close>); every returned address lies a multiple of
  the granularity above \<open>base\<close>; and when \<open>base\<close> is a multiple of the pointer size, so is
  every returned address, which is the alignment \<^verbatim>\<open>FileName\<close> needs.
\<close>

lemma fitting_requests_are_rounded_and_aligned:
  assumes "unat r + 16 \<le> 2 ^ 64"
  shows "sizes_rounded 8 (arena_run sizeof_pointer (linear_arena_create b r) calls)
   \<and> offsets_aligned 8 (arena_run sizeof_pointer (linear_arena_create b r) calls)
   \<and> (8 dvd unat b
        \<longrightarrow> addresses_aligned 8 (arena_run sizeof_pointer (linear_arena_create b r) calls))
   \<and> sizes_rounded 16 (arena_run (2 * sizeof_pointer) (make b r) calls)
   \<and> offsets_aligned 16 (arena_run (2 * sizeof_pointer) (make b r) calls)
   \<and> (8 dvd unat b
        \<longrightarrow> addresses_aligned 8 (arena_run (2 * sizeof_pointer) (make b r) calls))"
proof -
  have 8: "sizeof_pointer = 2 ^ 3" and 16: "2 * sizeof_pointer = 2 ^ 4"
    by (simp_all add: sizeof_pointer_def)
  have u1: "2 ^ 3 dvd unat (used (linear_arena_create b r))"
    and u2: "2 ^ 4 dvd unat (used (make b r))"
    by (simp_all add: linear_arena_create_def make_def)
  have r1: "unat (reserved (linear_arena_create b r)) + 2 ^ 3 \<le> 2 ^ 64"
    and r2: "unat (reserved (make b r)) + 2 ^ 4 \<le> 2 ^ 64"
    using assms by (simp_all add: linear_arena_create_def make_def)
  from arena_run_alignment [of 3, OF _ u1 r1, of calls 3]
    arena_run_alignment [of 4, OF _ u2 r2, of calls 3]
  show ?thesis
    unfolding 8 16 by (simp add: linear_arena_create_def make_def)
qed

lemma rounding_example:
  "map outcome
       (arena_run (2 * sizeof_pointer) (make 65536 1073741824) [(vm_grant, 25), (vm_grant, 40)])
     = [Inr 65536, Inr 65568]
   \<and> unat (consumed (make 65536 1073741824) (snd (alloc vm_grant (make 65536 1073741824) 25)))
     = round_up 25 16"
  by (simp add: arena_eval consumed_def round_up_def)

text \<open>
  Claim C6 says that every call with \<open>size > 0\<close> consumes the size rounded up to the next
  multiple of the granularity, and that every returned address lies a multiple of the
  granularity above \<open>base\<close>. The second half holds for every call. The allocator departs
  from the first where it grants a request that no arena can hold, instead of failing:
  \<^verbatim>\<open>NEXT_MULTIPLE\<close> is a \<^verbatim>\<open>size_t\<close> computation, and nothing tests the request against
  the reservation before or after it. On a fresh arena of 1 GiB a request of \<open>2 ^ 64 - 1\<close>
  bytes is rounded to 0, succeeds, returns \<open>base\<close> and consumes no byte at all, where the
  size rounded up to a multiple of 16 is \<open>2 ^ 64\<close>.
\<close>

theorem huge_request_consumes_nothing:
  "0 < (18446744073709551615 :: size_t)
   \<and> alloc vm_grant (make 65536 1073741824) 18446744073709551615
       = (Inr 65536, make 65536 1073741824)
   \<and> unat (consumed (make 65536 1073741824)
             (snd (alloc vm_grant (make 65536 1073741824) 18446744073709551615))) = 0
   \<and> round_up (unat (18446744073709551615 :: size_t)) 16 = 18446744073709551616
   \<and> unat (consumed (make 65536 1073741824)
             (snd (alloc vm_grant (make 65536 1073741824) 18446744073709551615)))
       \<noteq> round_up (unat (18446744073709551615 :: size_t)) 16"
  by (simp add: arena_eval consumed_def round_up_def)

subsection \<open>The last block of the reservation\<close>

text \<open>
  Claim C7, as stated, fails when the host refuses the commit the call needs: on a fresh
  arena of 4096 bytes a request of exactly 4096 bytes then fails with CommitFailed.
\<close>

theorem exact_fit_fails_when_commit_refused:
  "used (make 65536 4096) < reserved (make 65536 4096)
   \<and> commit_invariant (make 65536 4096)
   \<and> NEXT_MULTIPLE 4096 (2 * sizeof_pointer) = reserved (make 65536 4096) - used (make 65536 4096)
   \<and> alloc vm_refuse (make 65536 4096) 4096 = (Inl CommitFailed, make 65536 4096)"
  by (simp add: arena_eval commit_invariant_def)

text \<open>
  Claim C7, amended. In every arena state with \<open>used < reserved\<close>, a call whose aligned size
  is exactly \<open>reserved - used\<close> succeeds, provided the host grants the commit in case one
  is needed (\<open>committed < reserved\<close>); it returns \<open>base + used\<close> and leaves
  \<open>used = reserved\<close>; the call that follows, of any size and whatever the host answers,
  fails with OutOfReservedSpace and changes nothing. (The hypothesis
  \<open>used \<le> committed \<le> reserved\<close> of the claim is not needed.)
\<close>

theorem exact_fit_then_exhausted:
  assumes "used a < reserved a"
    and "NEXT_MULTIPLE sz al = reserved a - used a"
    and "committed a < reserved a \<longrightarrow> vm (base a) (commit_size_for a (reserved a - used a))"
  shows "fst (arena_push al vm a sz) = Inr (base a + used a)
       \<and> used (snd (arena_push al vm a sz)) = reserved a
       \<and> reserved (snd (arena_push al vm a sz)) = reserved a
       \<and> arena_push al vm' (snd (arena_push al vm a sz)) sz'
           = (Inl OutOfReservedSpace, snd (arena_push al vm a sz))"
  using assms
  by (simp add: arena_push_def grow_committed_def Let_def not_le [symmetric])

theorem exact_fit_then_exhausted_witness:
  "used (make 65536 4096) < reserved (make 65536 4096)
   \<and> NEXT_MULTIPLE 4090 (2 * sizeof_pointer) = reserved (make 65536 4096) - used (make 65536 4096)
   \<and> alloc vm_grant (make 65536 4096) 4090
       = (Inr 65536, \<lparr>base = 65536, used = 4096, committed = 4096, reserved = 4096\<rparr>)
   \<and> alloc vm_grant \<lparr>base = 65536, used = 4096, committed = 4096, reserved = 4096\<rparr> 1
       = (Inl OutOfReservedSpace, \<lparr>base = 65536, used = 4096, committed = 4096, reserved = 4096\<rparr>)"
proof -
  let ?a = "make 65536 4096"
  have 1: "used ?a < reserved ?a" by (simp add: make_def)
  have 2: "NEXT_MULTIPLE 4090 (2 * sizeof_pointer) = reserved ?a - used ?a"
    by (simp add: arena_eval)
  have 3: "committed ?a < reserved ?a \<longrightarrow> vm_grant (base ?a) (commit_size_for ?a (reserved ?a - used ?a))"
    by (simp add: vm_grant_def)
  have 4: "alloc vm_grant ?a 4090
       = (Inr 65536, \<lparr>base = 65536, used = 4096, committed = 4096, reserved = 4096\<rparr>)"
    by (simp add: arena_eval)
  from exact_fit_then_exhausted
         [where a = ?a and sz = 4090 and al = "2 * sizeof_pointer" and vm = vm_grant
            and vm' = vm_grant and sz' = 1, OF 1 2 3] 1 2 4
  show ?thesis by (simp add: alloc_def)
qed

section \<open>The path builder\<close>

lemma push_path_Inr:
  assumes "push_path pb s = Inr pb'"
  shows "PathBuilder.used pb' = PathBuilder.used pb + length s"
    and "length (buffer pb') = length (buffer pb)"
    and "PathBuilder.used pb' < length (buffer pb')"
    and "take (PathBuilder.used pb') (buffer pb') = take (PathBuilder.used pb) (buffer pb) @ s"
    and "buffer pb' ! PathBuilder.used pb' = NUL"
    and "length s + 1 < MAX_PATH"
  using assms
  by (auto simp add: push_path_def Let_def memcpy_def split: if_splits)

lemma push_all_Inr:
  assumes "push_all pb ss = Inr pb'" "PathBuilder.used pb \<le> length (buffer pb)"
  shows "take (PathBuilder.used pb') (buffer pb') = take (PathBuilder.used pb) (buffer pb) @ concat ss
       \<and> PathBuilder.used pb' = PathBuilder.used pb + length (concat ss)
       \<and> (ss \<noteq> [] \<longrightarrow> buffer pb' ! PathBuilder.used pb' = NUL
                       \<and> PathBuilder.used pb' < length (buffer pb'))"
  using assms
proof (induction ss arbitrary: pb)
  case Nil
  then show ?case by simp
next
  case (Cons s ss)
  from Cons.prems(1) obtain pb1 where 1: "push_path pb s = Inr pb1" and 2: "push_all pb1 ss = Inr pb'"
    by (auto split: sum.splits)
  note p = push_path_Inr [OF 1]
  from p(3) have le: "PathBuilder.used pb1 \<le> length (buffer pb1)" by simp
  from Cons.IH [OF 2 le] p 2 show ?case
    by (cases ss) auto
qed

lemma replicate_update_same: "(replicate n x)[i := x] = replicate n x"
  by (induction n arbitrary: i) (simp_all split: nat.split)

text \<open>The test the source makes looks at the appended string alone.\<close>

lemma push_path_exits_iff: "push_path pb s = Inl PathTooLong \<longleftrightarrow> MAX_PATH \<le> length s + 1"
  by (simp add: push_path_def Let_def)

text \<open>
  Claim C2 says that an append succeeds exactly when \<open>L + n + 1 < 260\<close>, and otherwise
  fails with PathTooLong without writing past the buffer. The test in the source is
  \<^verbatim>\<open>length + 1 >= MAX_PATH\<close>: the current length \<open>L\<close> is not part of it. With 200
  characters in the builder, appending 100 more passes the test, and the copy and the
  terminator go to the indices 200 to 300 of a buffer of 260 bytes.
\<close>

theorem push_path_overruns_buffer:
  "push_all empty_builder [replicate 200 (CHR ''a'')]
     = Inr \<lparr>buffer = replicate 200 (CHR ''a'') @ replicate 60 NUL, PathBuilder.used = 200\<rparr>
   \<and> push_path \<lparr>buffer = replicate 200 (CHR ''a'') @ replicate 60 NUL, PathBuilder.used = 200\<rparr>
        (replicate 100 (CHR ''a''))
     = Inl BufferOverrun
   \<and> string_builder_push
        \<lparr>buffer = replicate 200 (CHR ''a'') @ replicate 60 NUL, PathBuilder.used = 200\<rparr>
        (replicate 100 (CHR ''a''))
     = Inl BufferOverrun"
  by (simp add: push_path_def string_builder_push_def MAX_PATH_def empty_builder_def memcpy_def
      list_update_append replicate_update_same)

text \<open>
  Claim C9. After a reset, for every sequence of appends that all succeed (none exits and
  none writes outside the buffer), the first
  \<open>used\<close> bytes of the buffer are the concatenation of the appended strings, \<open>used\<close> is its
  length, and (one append at least having been made) the byte at index \<open>used\<close> is the
  terminator. The witness is the round trip of the specification: reset, append
  \<open>ab\<close>, append \<open>cd\<close>.
\<close>

theorem appended_text_is_concatenated:
  assumes "push_all (reset_path pb) strs = Inr pb'"
  shows "take (PathBuilder.used pb') (buffer pb') = concat strs
       \<and> PathBuilder.used pb' = length (concat strs)
       \<and> (strs \<noteq> [] \<longrightarrow> buffer pb' ! PathBuilder.used pb' = NUL)"
  using push_all_Inr [OF assms] by (auto simp add: reset_path_def)

theorem appended_text_is_concatenated_witness:
  "push_all (reset_path empty_builder) [''ab'', ''cd'']
     = Inr \<lparr>buffer = ''abcd'' @ replicate 256 NUL, PathBuilder.used = 4\<rparr>
   \<and> take 5 (''abcd'' @ replicate 256 NUL) = ''abcd'' @ [NUL]
   \<and> take 4 (''abcd'' @ replicate 256 NUL) = concat [''ab'', ''cd'']
   \<and> (''abcd'' @ replicate 256 NUL) ! 4 = NUL"
proof -
  have r: "push_all (reset_path empty_builder) [''ab'', ''cd'']
     = Inr \<lparr>buffer = ''abcd'' @ replicate 256 NUL, PathBuilder.used = 4\<rparr>"
    by (simp add: push_path_def MAX_PATH_def empty_builder_def memcpy_def reset_path_def
        replicate_update_same)
  from appended_text_is_concatenated [OF r] r show ?thesis
    by (simp add: numeral_eq_Suc)
qed

section \<open>The directory walk\<close>

subsection \<open>Bytes in memory\<close>
















subsection \<open>Linked lists in memory\<close>

lemma chain_not_NULL: "chain m p ps \<Longrightarrow> NULL \<notin> set ps"
  by (induction ps arbitrary: p) auto











subsection \<open>C strings\<close>



subsection \<open>One node appended\<close>

lemma push_all_lengths:
  "push_all pb ss = Inr pb' \<Longrightarrow> s \<in> set ss \<Longrightarrow> length s + 1 < MAX_PATH"
proof (induction ss arbitrary: pb)
  case Nil
  then show ?case by simp
next
  case (Cons t ts)
  from Cons.prems(1) obtain pb1 where 1: "push_path pb t = Inr pb1" and 2: "push_all pb1 ts = Inr pb'"
    by (auto split: sum.splits)
  from Cons.prems(2) Cons.IH [OF 2] push_path_Inr(6) [OF 1] show ?case by auto
qed






subsection \<open>The order of the list\<close>



subsection \<open>The example and a fault\<close>

text \<open>The definitions that running the walk on a concrete host unfolds.\<close>

lemmas walk_eval =
  append_node_def push_path_def MAX_PATH_def empty_builder_def memcpy_def
  replicate_update_same list_update_append write_node_def accessible_def address_def
  c_string_def NUL_def NULL_def backslash_def sizeof_FileName_def offsetof_name_def
  arena_push_def grow_committed_def commit_size_for_def Let_def sizeof_pointer_def
  NEXT_MULTIPLE_def CLAMP_TOP_def MAX_of_def vm_grant_def vm_refuse_def

text \<open>
  The arena of the example is the one \<^verbatim>\<open>main\<close> has after
  \<^verbatim>\<open>make(&arena, 1024 * 1024 * 1024)\<close> and the allocation of its first node.
\<close>

lemma example_arena_from_main:
  "alloc vm_grant (make 65536 (1024 * 1024 * 1024)) (sizeof_FileName + 1) = (Inr 65536, example_arena)"
  by (simp add: arena_eval example_arena_def sizeof_FileName_def)


text \<open>
  Where the allocator grants a block that ends outside the reservation (the case of
  claim C1), the walk does not return: with \<open>used = 4080\<close> of 4096 reserved and committed
  bytes, the node of \<open>root\<backslash>a\<close> is put at offset 4080, the commit is clamped to the
  reservation, and the copy of the name runs past the committed memory.
\<close>

lemma write_past_committed_memory_faults:
  "directory_loop (2 * sizeof_pointer) vm_grant ''root'' [Entry ''a'' False []] empty_builder
     (\<lparr>base = 65536, used = 4080, committed = 4096, reserved = 4096\<rparr>, m) 65536
   = Some (Inl AccessViolation)"
  by (simp add: walk_eval)

subsection \<open>Pre-order\<close>



subsection \<open>The allocator's failure in the walk\<close>

text \<open>
  Claim C10. For every entry the loop processes (any entry but the two pseudo-entries,
  its path built), the walk stores the node through the pointer the allocator returned
  without testing it: when the allocator fails, for either of its two reasons, that pointer
  is null and the stores through it are what the loop body does next.
\<close>

theorem allocation_failure_is_written_through:
  assumes "cFileName \<noteq> ''.''" and "cFileName \<noteq> ''..''"
    and "push_all (pattern\<lparr>PathBuilder.used := 0\<rparr>) [root, [backslash], cFileName] = Inr pattern'"
    and "fst (arena_push al vm a (sizeof_FileName + of_nat (PathBuilder.used pattern'))) = Inl e"
  shows "returned_pointer
           (fst (arena_push al vm a (sizeof_FileName + of_nat (PathBuilder.used pattern')))) = NULL
       \<and> append_node al vm root cFileName pattern (a, h) strings = Some (Inl NullPointerWrite)
       \<and> directory_loop al vm root (Entry cFileName is_directory sub # es) pattern (a, h) strings
           = Some (Inl NullPointerWrite)"
proof -
  from assms(3,4)
  have "append_node al vm root cFileName pattern (a, h) strings = Some (Inl NullPointerWrite)"
    by (simp add: append_node_def Let_def write_node_def)
  with assms show ?thesis by simp
qed

theorem allocation_failure_is_written_through_witness:
  "''x.txt'' \<noteq> ''.'' \<and> ''x.txt'' \<noteq> ''..''
   \<and> push_all (empty_builder\<lparr>PathBuilder.used := 0\<rparr>) [''.'', [backslash], ''x.txt'']
       = Inr \<lparr>buffer = ''.'' @ backslash # ''x.txt'' @ replicate 253 NUL, PathBuilder.used = 7\<rparr>
   \<and> fst (alloc vm_grant \<lparr>base = 65536, used = 4096, committed = 4096, reserved = 4096\<rparr>
            (sizeof_FileName + of_nat 7)) = Inl OutOfReservedSpace
   \<and> directory_loop (2 * sizeof_pointer) vm_grant ''.'' [Entry ''x.txt'' False []] empty_builder
        (\<lparr>base = 65536, used = 4096, committed = 4096, reserved = 4096\<rparr>, example_memory) 65536
       = Some (Inl NullPointerWrite)"
proof -
  let ?a = "\<lparr>base = 65536, used = 4096, committed = 4096, reserved = 4096\<rparr>"
  let ?pb = "\<lparr>buffer = ''.'' @ backslash # ''x.txt'' @ replicate 253 NUL, PathBuilder.used = 7\<rparr>"
  have 1: "''x.txt'' \<noteq> ''.''" and 2: "''x.txt'' \<noteq> ''..''" by simp_all
  have 3: "push_all (empty_builder\<lparr>PathBuilder.used := 0\<rparr>) [''.'', [backslash], ''x.txt''] = Inr ?pb"
    by (simp add: push_path_def MAX_PATH_def empty_builder_def memcpy_def replicate_update_same
        list_update_append)
  have 4: "fst (arena_push (2 * sizeof_pointer) vm_grant ?a
                 (sizeof_FileName + of_nat (PathBuilder.used ?pb))) = Inl OutOfReservedSpace"
    by (simp add: arena_push_def)
  from allocation_failure_is_written_through [OF 1 2 3 4, of example_memory 65536 False "[]" "[]"]
    1 2 3 4
  show ?thesis by (simp add: alloc_def)
qed

end
